theory Spec2Isabelle
  imports Main "HOL-Library.Sublist"
begin

section \<open>The users resource of \<^verbatim>\<open>src/v1/routes/user.py\<close>\<close>

subsection \<open>Values, dictionaries and the request body\<close>

text \<open>
  Python values that occur in a row of the users table or in a request body. Strings and
  byte strings are character lists (\<^verbatim>\<open>encode("utf-8")\<close> is the identity on them);
  a \<^verbatim>\<open>datetime\<close> is an integer instant.
\<close>

datatype val = IntV int | StrV string | BytesV string | TimeV int

text \<open>A Python dict with string keys; a row of the table, read as a mapping, is one too.\<close>

type_synonym pydict = "string \<Rightarrow> val option"

type_synonym row = pydict

text \<open>
  Modelled from the spec: \<^verbatim>\<open>core.schemas.user.CreateUser\<close> is not among the sources.
  The spec gives the request body as \<^verbatim>\<open>{first_name, last_name, email, password}\<close>, all
  required.
\<close>

record CreateUser =
  first_name :: string
  last_name :: string
  email :: string
  password :: string

text \<open>\<^verbatim>\<open>user.dict()\<close>: the body as a dict, one key per field.\<close>

definition dict :: "CreateUser \<Rightarrow> pydict" where
  "dict user =
     [''first_name'' \<mapsto> StrV (first_name user),
      ''last_name'' \<mapsto> StrV (last_name user),
      ''email'' \<mapsto> StrV (email user),
      ''password'' \<mapsto> StrV (password user)]"

text \<open>
  Modelled from the spec: \<^verbatim>\<open>core.schemas.user.UserOut\<close>, the \<^verbatim>\<open>response_model\<close> of
  every route that returns a user, is not among the sources. The spec gives the public
  record as \<^verbatim>\<open>{id, first_name, last_name, email, created_at, updated_at}\<close>: the
  framework keeps these keys of what the function returns and drops the others.
\<close>

definition UserOut :: "pydict \<Rightarrow> pydict" where
  "UserOut d =
     d |` {''id'', ''first_name'', ''last_name'', ''email'', ''created_at'', ''updated_at''}"

subsection \<open>What a request gets from outside\<close>

text \<open>
  \<^verbatim>\<open>sqlalchemy\<close> exceptions: \<^verbatim>\<open>IntegrityError\<close> with its message (\<^verbatim>\<open>str(e)\<close>), and
  any other class of database error.
\<close>

datatype db_exception = IntegrityError string | OperationalError string

text \<open>
  The environment of one request: the clock, \<^verbatim>\<open>fernet.encrypt\<close> as it answers during
  this request (the key is drawn at import time, lines 22-23, and the library is not part
  of the repository), and a failure of the storage layer other than a uniqueness
  violation, if one strikes the update's write.
\<close>

record env =
  utcnow :: int
  encrypt :: "string \<Rightarrow> string"
  fault :: "db_exception option"

subsection \<open>The Storage Gateway\<close>

text \<open>
  Modelled from the spec: \<^verbatim>\<open>core.models.user.users\<close> and \<^verbatim>\<open>core.config.db.connection\<close>
  are not among the sources. The spec: a users table; the id is a surrogate key assigned by
  storage on creation; \<^verbatim>\<open>created_at = updated_at = now\<close> on insert; the email is unique
  across all users, enforced by storage, which raises a distinguishable error on a
  uniqueness violation; list returns the rows in insertion order.
\<close>

record database =
  users :: "row list"
  auto_increment :: int

definition empty_db :: database where
  "empty_db = \<lparr>users = [], auto_increment = 1\<rparr>"

text \<open>
  The statements of the source: \<^verbatim>\<open>users.insert().values(d)\<close>, \<^verbatim>\<open>users.select()\<close> with or
  without \<^verbatim>\<open>.where(users.c.col == v)\<close>, \<^verbatim>\<open>users.update(users.c.id == id).values(**d)\<close> and
  \<^verbatim>\<open>users.delete().where(users.c.id == id)\<close>.
\<close>

datatype whereclause = ColEq string val

datatype statement =
    Insert pydict
  | Select "whereclause option"
  | Update whereclause pydict
  | Delete whereclause

fun matches :: "whereclause \<Rightarrow> row \<Rightarrow> bool" where
  "matches (ColEq c v) r = (r c = Some v)"

definition unique_email :: "row list \<Rightarrow> bool" where
  "unique_email rs = distinct (map (\<lambda>r. r ''email'') rs)"

text \<open>
  Modelled from the spec: the driver that words the error is not among the sources. The
  spec has the storage raise a distinguishable error on a uniqueness violation; the
  message is worded the way \<^verbatim>\<open>update_user\<close> tells it apart (line 201):
  \<^verbatim>\<open>Duplicate entry ... for key users.email\<close>.
\<close>

definition duplicate_entry :: "val option \<Rightarrow> string" where
  "duplicate_entry v =
     ''Duplicate entry '' @ (case v of Some (StrV s) \<Rightarrow> s | _ \<Rightarrow> []) @ '' for key users.email''"

text \<open>
  Modelled from the spec: \<^verbatim>\<open>connection.execute(statement)\<close> of the missing
  \<^verbatim>\<open>core.config.db\<close>, on the statements the source builds from the missing table
  \<^verbatim>\<open>users\<close>. It gives the rows of the result (none for a write) or the exception raised,
  and the database afterwards. An insert takes its id from the counter and both timestamps
  from the clock; a write after which two rows would share an email is refused and changes
  nothing; the update's write can also fail with the fault of the environment.
\<close>

fun execute :: "env \<Rightarrow> statement \<Rightarrow> database \<Rightarrow> (db_exception + row list) \<times> database" where
  "execute e (Insert vals) db =
     (let r = [''id'' \<mapsto> IntV (auto_increment db),
               ''created_at'' \<mapsto> TimeV (utcnow e),
               ''updated_at'' \<mapsto> TimeV (utcnow e)] ++ vals;
          rs = users db @ [r]
      in if unique_email rs
         then (Inr [], db\<lparr>users := rs, auto_increment := auto_increment db + 1\<rparr>)
         else (Inl (IntegrityError (duplicate_entry (vals ''email''))), db))"
| "execute e (Select None) db = (Inr (users db), db)"
| "execute e (Select (Some w)) db = (Inr (filter (matches w) (users db)), db)"
| "execute e (Update w vals) db =
     (case fault e of
        Some x \<Rightarrow> (Inl x, db)
      | None \<Rightarrow>
          (let rs = map (\<lambda>r. if matches w r then r ++ vals else r) (users db)
           in if unique_email rs
              then (Inr [], db\<lparr>users := rs\<rparr>)
              else (Inl (IntegrityError (duplicate_entry (vals ''email''))), db)))"
| "execute e (Delete w) db =
     (Inr [], db\<lparr>users := filter (\<lambda>r. \<not> matches w r) (users db)\<rparr>)"

text \<open>\<^verbatim>\<open>.fetchone()\<close>: the first row of the result, or \<^verbatim>\<open>None\<close>.\<close>

definition fetchone :: "row list \<Rightarrow> row option" where
  "fetchone rs = (case rs of [] \<Rightarrow> None | r # _ \<Rightarrow> Some r)"

subsection \<open>The path operations\<close>

text \<open>
  How a path operation ends when it does not return: an \<^verbatim>\<open>HTTPException\<close> it raises
  (status code and detail), an exception of the storage layer that it does not catch, or
  the refusal of a path parameter that is not \<^verbatim>\<open>gt=0\<close>.
\<close>

datatype failure =
    HTTPException nat string
  | Unhandled db_exception
  | RequestValidationError

text \<open>
  The status the caller sees: the code of the \<^verbatim>\<open>HTTPException\<close>; 500 for an exception
  that leaves the function unhandled; 422 for a refused parameter.
\<close>

fun http_status :: "failure \<Rightarrow> nat" where
  "http_status (HTTPException code detail) = code"
| "http_status (Unhandled x) = 500"
| "http_status RequestValidationError = 422"

text \<open>Lines 33-58. No \<^verbatim>\<open>try\<close> surrounds the insert.\<close>

definition signup :: "env \<Rightarrow> CreateUser \<Rightarrow> database \<Rightarrow> (failure + row option) \<times> database" where
  "signup e user db =
     (let new_user = (dict user)(''password'' \<mapsto> BytesV (encrypt e (password user)))
      in case execute e (Insert new_user) db of
           (Inl x, db1) \<Rightarrow> (Inl (Unhandled x), db1)
         | (Inr _, db1) \<Rightarrow>
             (case execute e (Select (Some (ColEq ''email'' (the (new_user ''email''))))) db1 of
                (Inl x, db2) \<Rightarrow> (Inl (Unhandled x), db2)
              | (Inr rs, db2) \<Rightarrow> (Inr (fetchone rs), db2)))"

text \<open>Lines 70-89.\<close>

definition get_all_users :: "env \<Rightarrow> database \<Rightarrow> (failure + row list) \<times> database" where
  "get_all_users e db =
     (case execute e (Select None) db of
        (Inl x, db1) \<Rightarrow> (Inl (Unhandled x), db1)
      | (Inr rs, db1) \<Rightarrow> (Inr rs, db1))"

text \<open>
  Line 4, \<^verbatim>\<open>from urllib import response\<close>, binds the module-level name \<^verbatim>\<open>response\<close>
  to a module. \<^verbatim>\<open>get_user\<close> has no local of that name, so its test
  \<^verbatim>\<open>response is None\<close> (line 128) reads the module, while the row it fetched is \<^verbatim>\<open>res\<close>.
\<close>

datatype pyobject = PyNone | PyModule string

definition response :: pyobject where
  "response = PyModule ''urllib.response''"

text \<open>Lines 100-134.\<close>

definition get_user :: "env \<Rightarrow> int \<Rightarrow> database \<Rightarrow> (failure + row option) \<times> database" where
  "get_user e id' db =
     (if id' \<le> 0 then (Inl RequestValidationError, db)
      else case execute e (Select (Some (ColEq ''id'' (IntV id')))) db of
             (Inl x, db1) \<Rightarrow> (Inl (Unhandled x), db1)
           | (Inr rs, db1) \<Rightarrow>
               (let res = fetchone rs
                in if response = PyNone
                   then (Inl (HTTPException 404 ''User not found''), db1)
                   else (Inr res, db1)))"

text \<open>
  Lines 145-213. The dict \<^verbatim>\<open>{**res, **user.dict()}\<close> is the row overridden by the body;
  the write (line 198) sends every key of it; \<^verbatim>\<open>updated_at\<close> is set on the dict after
  the write (line 211; the string of the instant there is the instant here).
\<close>

definition update_user :: "env \<Rightarrow> int \<Rightarrow> CreateUser \<Rightarrow> database \<Rightarrow> (failure + pydict) \<times> database" where
  "update_user e id' user db =
     (if id' \<le> 0 then (Inl RequestValidationError, db)
      else case execute e (Select (Some (ColEq ''id'' (IntV id')))) db of
             (Inl x, db1) \<Rightarrow> (Inl (Unhandled x), db1)
           | (Inr rs, db1) \<Rightarrow>
               (case fetchone rs of
                  None \<Rightarrow> (Inl (HTTPException 404 ''User not found''), db1)
                | Some res \<Rightarrow>
                    (let updated_user =
                           (res ++ dict user)(''password'' \<mapsto> BytesV (encrypt e (password user)))
                     in case execute e (Update (ColEq ''id'' (IntV id')) updated_user) db1 of
                          (Inl (IntegrityError msg), db2) \<Rightarrow>
                            if sublist ''Duplicate entry'' msg \<and> sublist ''users.email'' msg
                            then (Inl (HTTPException 409
                                         (''Email '' @ email user @ '' already exist!'')), db2)
                            else (Inl (HTTPException 500 ''Internal server error.''), db2)
                        | (Inl x, db2) \<Rightarrow> (Inl (Unhandled x), db2)
                        | (Inr _, db2) \<Rightarrow>
                            (Inr (updated_user(''updated_at'' \<mapsto> TimeV (utcnow e))), db2))))"

text \<open>Lines 223-262.\<close>

datatype http_response = Response nat

definition delete_user :: "env \<Rightarrow> int \<Rightarrow> database \<Rightarrow> (failure + http_response) \<times> database" where
  "delete_user e id' db =
     (if id' \<le> 0 then (Inl RequestValidationError, db)
      else case execute e (Select (Some (ColEq ''id'' (IntV id')))) db of
             (Inl x, db1) \<Rightarrow> (Inl (Unhandled x), db1)
           | (Inr rs, db1) \<Rightarrow>
               (case fetchone rs of
                  None \<Rightarrow> (Inl (HTTPException 404 ''User not found''), db1)
                | Some user_response \<Rightarrow>
                    (case execute e (Delete (ColEq ''id'' (IntV id'))) db1 of
                       (Inl x, db2) \<Rightarrow> (Inl (Unhandled x), db2)
                     | (Inr _, db2) \<Rightarrow> (Inr (Response 204), db2))))"

subsection \<open>Reading a database\<close>

text \<open>Whether some row holds the email; the row a select by id fetches; ids all different.\<close>

definition has_email :: "database \<Rightarrow> string \<Rightarrow> bool" where
  "has_email db a = (\<exists>r\<in>set (users db). r ''email'' = Some (StrV a))"

definition stored :: "database \<Rightarrow> int \<Rightarrow> row option" where
  "stored db i = find (\<lambda>r. r ''id'' = Some (IntV i)) (users db)"

definition unique_id :: "row list \<Rightarrow> bool" where
  "unique_id rs = distinct (map (\<lambda>r. r ''id'') rs)"

subsection \<open>Sample requests\<close>

text \<open>
  A request at instant \<open>t\<close> with no storage fault; the sample cipher prefixes the plaintext
  the way a token starts. Three request bodies.
\<close>

definition request_at :: "int \<Rightarrow> env" where
  "request_at t = \<lparr>utcnow = t, encrypt = (\<lambda>p. ''gAAAAAB'' @ p), fault = None\<rparr>"

definition ann :: CreateUser where
  "ann = \<lparr>first_name = ''Ann'', last_name = ''Lee'', email = ''ann@x.org'', password = ''pw1''\<rparr>"

definition bob :: CreateUser where
  "bob = \<lparr>first_name = ''Bob'', last_name = ''Ray'', email = ''bob@x.org'', password = ''pw2''\<rparr>"

definition cyd :: CreateUser where
  "cyd = \<lparr>first_name = ''Cyd'', last_name = ''Orr'', email = ''cyd@x.org'', password = ''pw3''\<rparr>"

subsection \<open>The states the service can reach\<close>

text \<open>
  From the empty table, by any sequence of the five path operations, each run in an
  environment that \<open>E\<close> admits.
\<close>

inductive reachable :: "(env \<Rightarrow> bool) \<Rightarrow> database \<Rightarrow> bool" for E :: "env \<Rightarrow> bool" where
  start: "reachable E empty_db"
| by_signup: "reachable E db \<Longrightarrow> E e \<Longrightarrow> reachable E (snd (signup e user db))"
| by_get_all_users: "reachable E db \<Longrightarrow> E e \<Longrightarrow> reachable E (snd (get_all_users e db))"
| by_get_user: "reachable E db \<Longrightarrow> E e \<Longrightarrow> reachable E (snd (get_user e id' db))"
| by_update_user: "reachable E db \<Longrightarrow> E e \<Longrightarrow> reachable E (snd (update_user e id' user db))"
| by_delete_user: "reachable E db \<Longrightarrow> E e \<Longrightarrow> reachable E (snd (delete_user e id' db))"

text \<open>The environments of the sample cipher, and the tables after one, two and three sign-ups.\<close>

definition sample_cipher :: "env \<Rightarrow> bool" where
  "sample_cipher e = (encrypt e = (\<lambda>p. ''gAAAAAB'' @ p))"

definition db_a :: database where
  "db_a = snd (signup (request_at 10) ann empty_db)"

definition db_ab :: database where
  "db_ab = snd (signup (request_at 11) bob db_a)"

definition db_abc :: database where
  "db_abc = snd (signup (request_at 12) cyd db_ab)"

section \<open>Auxiliary facts\<close>

lemmas sample_defs = request_at_def ann_def bob_def cyd_def empty_db_def

lemmas run_defs = signup_def update_user_def delete_user_def get_user_def get_all_users_def
  dict_def unique_email_def duplicate_entry_def fetchone_def response_def Let_def

lemma fetchone_simps:
  "fetchone [] = None" "fetchone (r # rs) = Some r"
  by (simp_all add: fetchone_def)

lemma fetchone_filter: "fetchone (filter P xs) = find P xs"
  by (induction xs) (simp_all add: fetchone_def)

lemma dict_keys:
  "dict user ''id'' = None" "dict user ''created_at'' = None" "dict user ''updated_at'' = None"
  "dict user ''email'' = Some (StrV (email user))"
  "dict user ''first_name'' = Some (StrV (first_name user))"
  "dict user ''last_name'' = Some (StrV (last_name user))"
  "dict user ''password'' = Some (StrV (password user))"
  by (simp_all add: dict_def)

lemma dict_other:
  "k \<notin> {''first_name'', ''last_name'', ''email'', ''password''} \<Longrightarrow> dict user k = None"
  by (simp add: dict_def)

lemma find_map_same:
  "(\<And>x. x \<in> set xs \<Longrightarrow> P (g x) = P x) \<Longrightarrow> find P (map g xs) = map_option g (find P xs)"
  by (induction xs) simp_all


lemma duplicate_entry_matches:
  "sublist ''Duplicate entry'' (duplicate_entry v)" "sublist ''users.email'' (duplicate_entry v)"
proof -
  let ?s = "case v of Some (StrV s) \<Rightarrow> s | _ \<Rightarrow> []"
  have "duplicate_entry v = [] @ ''Duplicate entry'' @ ('' '' @ ?s @ '' for key users.email'')"
    by (simp add: duplicate_entry_def)
  then show "sublist ''Duplicate entry'' (duplicate_entry v)"
    unfolding sublist_def by blast
  have "duplicate_entry v = (''Duplicate entry '' @ ?s @ '' for key '') @ ''users.email'' @ []"
    by (simp add: duplicate_entry_def)
  then show "sublist ''users.email'' (duplicate_entry v)"
    unfolding sublist_def by blast
qed

lemma select_by_id: "matches (ColEq c v) = (\<lambda>r. r c = Some v)"
  by (rule ext) simp

lemma fetch_by_id:
  "fetchone (filter (\<lambda>r. r ''id'' = Some (IntV i)) (users db)) = stored db i"
  by (simp add: fetchone_filter stored_def)

lemma update_user_absent:
  assumes "0 < id'" and "stored db id' = None"
  shows "update_user e id' user db = (Inl (HTTPException 404 ''User not found''), db)"
  using assms by (simp add: update_user_def select_by_id fetch_by_id)

lemma update_user_found:
  assumes "0 < id'" and "stored db id' = Some res" and "fault e = None"
  shows "update_user e id' user db =
     (let u = (res ++ dict user)(''password'' \<mapsto> BytesV (encrypt e (password user)));
          rs = map (\<lambda>r. if r ''id'' = Some (IntV id') then r ++ u else r) (users db)
      in if unique_email rs
         then (Inr (u(''updated_at'' \<mapsto> TimeV (utcnow e))), db\<lparr>users := rs\<rparr>)
         else (Inl (HTTPException 409 (''Email '' @ email user @ '' already exist!'')), db))"
  using assms
  by (simp add: update_user_def select_by_id fetch_by_id Let_def duplicate_entry_matches)

lemma update_user_fault:
  assumes "0 < id'" and "stored db id' = Some res" and "fault e = Some x"
  shows "update_user e id' user db =
     (case x of
        IntegrityError msg \<Rightarrow>
          if sublist ''Duplicate entry'' msg \<and> sublist ''users.email'' msg
          then (Inl (HTTPException 409 (''Email '' @ email user @ '' already exist!'')), db)
          else (Inl (HTTPException 500 ''Internal server error.''), db)
      | OperationalError msg \<Rightarrow> (Inl (Unhandled x), db))"
  using assms
  by (simp add: update_user_def select_by_id fetch_by_id Let_def split: db_exception.splits)


lemma stored_SomeD:
  "stored db i = Some res \<Longrightarrow> res \<in> set (users db) \<and> res ''id'' = Some (IntV i)"
  by (auto simp: stored_def find_Some_iff)

lemma update_conflict_rows:
  assumes "res \<in> set rs" and "res ''id'' = Some (IntV i)"
    and "r \<in> set rs" and "r ''id'' \<noteq> Some (IntV i)" and "r ''email'' = u ''email''"
    and "u ''id'' = Some (IntV i)" and "u ''email'' \<noteq> None"
  shows "\<not> unique_email (map (\<lambda>r. if r ''id'' = Some (IntV i) then r ++ u else r) rs)"
proof
  let ?g = "\<lambda>r. if r ''id'' = Some (IntV i) then r ++ u else r"
  assume "unique_email (map ?g rs)"
  then have "distinct (map (\<lambda>r. r ''email'') (map ?g rs))"
    by (simp only: unique_email_def)
  then have "inj_on (\<lambda>r. r ''email'') (set (map ?g rs))"
    by (rule distinct_map[THEN iffD1, THEN conjunct2])
  then have inj: "inj_on (\<lambda>r. r ''email'') (?g ` set rs)"
    by (simp only: set_map)
  have a: "?g res \<in> ?g ` set rs" "?g r \<in> ?g ` set rs"
    using assms(1,3) by blast+
  have b: "?g res ''email'' = ?g r ''email''"
    using assms(2,4,5,7) by (auto simp: map_add_def split: option.splits)
  have "?g res = ?g r"
    using inj a b unfolding inj_on_def by blast
  then have "?g res ''id'' = ?g r ''id''" by simp
  then show False
    using assms(2,4,6) by (simp add: map_add_def)
qed

lemma update_same_email_rows:
  assumes "unique_id rs" and "unique_email rs"
    and "res \<in> set rs" and "res ''id'' = Some (IntV i)" and "u ''email'' = res ''email''"
  shows "unique_email (map (\<lambda>r. if r ''id'' = Some (IntV i) then r ++ u else r) rs)"
proof -
  let ?g = "\<lambda>r. if r ''id'' = Some (IntV i) then r ++ u else r"
  have inj: "inj_on (\<lambda>r. r ''id'') (set rs)"
    using assms(1) by (simp add: unique_id_def distinct_map)
  have "?g r ''email'' = r ''email''" if "r \<in> set rs" for r
  proof (cases "r ''id'' = Some (IntV i)")
    case True
    then have "(\<lambda>r. r ''id'') r = (\<lambda>r. r ''id'') res" using assms(4) by simp
    then have "r = res" by (rule inj_onD[OF inj _ that assms(3)])
    then show ?thesis using True assms(5) by (auto simp: map_add_def split: option.splits)
  qed simp
  then have eq: "map (\<lambda>r. r ''email'') (map ?g rs) = map (\<lambda>r. r ''email'') rs"
    by (simp add: comp_def)
  show ?thesis
    unfolding unique_email_def eq using assms(2) unfolding unique_email_def .
qed

lemma get_user_db: "snd (get_user e id' db) = db"
  by (simp add: get_user_def)

lemma get_all_users_db: "snd (get_all_users e db) = db"
  by (simp add: get_all_users_def)

text \<open>\<^verbatim>\<open>get_user\<close> raises no 404, whatever it fetched.\<close>

lemma get_user_never_404:
  "fst (get_user e id' db) \<noteq> Inl (HTTPException 404 detail)"
  by (simp add: get_user_def response_def)

lemma get_user_positive:
  "0 < id' \<Longrightarrow> get_user e id' db = (Inr (stored db id'), db)"
  by (simp add: get_user_def response_def select_by_id fetch_by_id)

text \<open>A sign-up with an email some row holds ends in the unhandled \<^verbatim>\<open>IntegrityError\<close>.\<close>

lemma not_distinct_snoc: "x \<in> set xs \<Longrightarrow> \<not> distinct (xs @ [x])"
  by simp

lemma insert_refused:
  assumes "\<not> unique_email (users db @ [[''id'' \<mapsto> IntV (auto_increment db),
               ''created_at'' \<mapsto> TimeV (utcnow e),
               ''updated_at'' \<mapsto> TimeV (utcnow e)] ++ vals])"
  shows "execute e (Insert vals) db = (Inl (IntegrityError (duplicate_entry (vals ''email''))), db)"
  using assms by (simp only: execute.simps Let_def if_False)

lemma signup_taken_email:
  assumes "has_email db (email user)"
  shows "signup e user db =
    (Inl (Unhandled (IntegrityError (duplicate_entry (Some (StrV (email user)))))), db)"
proof -
  let ?new_user = "(dict user)(''password'' \<mapsto> BytesV (encrypt e (password user)))"
  let ?r = "[''id'' \<mapsto> IntV (auto_increment db),
               ''created_at'' \<mapsto> TimeV (utcnow e),
               ''updated_at'' \<mapsto> TimeV (utcnow e)] ++ ?new_user"
  have em: "?r ''email'' = Some (StrV (email user))"
    by (simp add: map_add_def dict_keys)
  have key: "?new_user ''email'' = Some (StrV (email user))"
    by (simp add: dict_keys)
  obtain r0 where r0: "r0 \<in> set (users db)" "r0 ''email'' = Some (StrV (email user))"
    using assms unfolding has_email_def by blast
  have "Some (StrV (email user)) \<in> (\<lambda>r. r ''email'') ` set (users db)"
    using r0 by (intro image_eqI[where x = r0]) simp_all
  then have "?r ''email'' \<in> set (map (\<lambda>r. r ''email'') (users db))"
    by (simp only: em set_map)
  then have "\<not> distinct (map (\<lambda>r. r ''email'') (users db) @ [?r ''email''])"
    by (rule not_distinct_snoc)
  then have "\<not> unique_email (users db @ [?r])"
    by (simp only: unique_email_def map_append list.map not_False_eq_True)
  then have "execute e (Insert ?new_user) db =
      (Inl (IntegrityError (duplicate_entry (?new_user ''email''))), db)"
    by (rule insert_refused)
  then show ?thesis
    by (simp only: signup_def Let_def key prod.case sum.case)
qed

text \<open>What a successful update returns and stores.\<close>

lemma update_user_success:
  assumes "stored db id' = Some res" and "update_user e id' user db = (Inr d, db')"
  shows "d = ((res ++ dict user)(''password'' \<mapsto> BytesV (encrypt e (password user))))
               (''updated_at'' \<mapsto> TimeV (utcnow e))"
    and "stored db' id' =
           Some (res ++ (res ++ dict user)(''password'' \<mapsto> BytesV (encrypt e (password user))))"
proof -
  let ?u = "(res ++ dict user)(''password'' \<mapsto> BytesV (encrypt e (password user)))"
  let ?g = "\<lambda>r. if r ''id'' = Some (IntV id') then r ++ ?u else r"
  have pos: "0 < id'"
    using assms(2) by (auto simp: update_user_def split: if_splits)
  have nofault: "fault e = None"
  proof (cases "fault e")
    case (Some x)
    then show ?thesis
      using assms(2) update_user_fault[OF pos assms(1) Some, of user]
      by (auto split: db_exception.splits if_splits)
  qed simp
  have run: "d = ?u(''updated_at'' \<mapsto> TimeV (utcnow e))" "db' = db\<lparr>users := map ?g (users db)\<rparr>"
    using assms(2) update_user_found[OF pos assms(1) nofault, of user]
    by (auto simp: Let_def split: if_splits)
  have idres: "res ''id'' = Some (IntV id')"
    using stored_SomeD[OF assms(1)] by simp
  have uid: "?u ''id'' = Some (IntV id')"
    using idres by (simp add: map_add_def dict_keys)
  have same: "\<And>x. (?g x ''id'' = Some (IntV id')) = (x ''id'' = Some (IntV id'))"
    using uid by (simp add: map_add_def)
  have "stored db' id' = map_option ?g (stored db id')"
    unfolding stored_def run(2) using same
    by (simp add: find_map_same)
  then show "stored db' id' = Some (res ++ ?u)"
    using assms(1) idres by simp
  show "d = ?u(''updated_at'' \<mapsto> TimeV (utcnow e))" by (rule run(1))
qed

text \<open>The row a successful update stores keeps the \<^verbatim>\<open>updated_at\<close> it had.\<close>

lemma update_user_stored_updated_at:
  assumes "stored db id' = Some res" and "update_user e id' user db = (Inr d, db')"
  shows "\<exists>res'. stored db' id' = Some res' \<and> res' ''updated_at'' = res ''updated_at''"
  unfolding update_user_success(2)[OF assms]
  by (auto simp: map_add_def dict_keys split: option.splits)

lemma signup_step:
  "snd (signup e user db) = db \<or>
   (unique_email (users db @ [[''id'' \<mapsto> IntV (auto_increment db),
               ''created_at'' \<mapsto> TimeV (utcnow e),
               ''updated_at'' \<mapsto> TimeV (utcnow e)] ++
               (dict user)(''password'' \<mapsto> BytesV (encrypt e (password user)))]) \<and>
    snd (signup e user db) =
      db\<lparr>users := users db @ [[''id'' \<mapsto> IntV (auto_increment db),
               ''created_at'' \<mapsto> TimeV (utcnow e),
               ''updated_at'' \<mapsto> TimeV (utcnow e)] ++
               (dict user)(''password'' \<mapsto> BytesV (encrypt e (password user)))],
          auto_increment := auto_increment db + 1\<rparr>)"
  by (simp add: signup_def Let_def)

lemma update_user_step:
  "snd (update_user e id' user db) = db \<or>
   (\<exists>res. stored db id' = Some res \<and>
      unique_email (map (\<lambda>r. if r ''id'' = Some (IntV id')
          then r ++ (res ++ dict user)(''password'' \<mapsto> BytesV (encrypt e (password user))) else r) (users db)) \<and>
      snd (update_user e id' user db) =
        db\<lparr>users := map (\<lambda>r. if r ''id'' = Some (IntV id')
          then r ++ (res ++ dict user)(''password'' \<mapsto> BytesV (encrypt e (password user))) else r) (users db)\<rparr>)"
proof (cases "0 < id'")
  case False
  then show ?thesis by (simp add: update_user_def)
next
  case pos: True
  show ?thesis
  proof (cases "stored db id'")
    case None
    then show ?thesis by (simp add: update_user_absent[OF pos])
  next
    case (Some res)
    show ?thesis
    proof (cases "fault e")
      case None
      then show ?thesis
        using update_user_found[OF pos Some None, of user] Some
        by (simp add: Let_def)
    next
      case (Some x)
      then show ?thesis
        using update_user_fault[OF pos \<open>stored db id' = Some res\<close> Some, of user]
        by (simp split: db_exception.splits)
    qed
  qed
qed

lemma delete_user_step:
  "snd (delete_user e id' db) = db \<or>
   snd (delete_user e id' db) = db\<lparr>users := filter (\<lambda>r. r ''id'' \<noteq> Some (IntV id')) (users db)\<rparr>"
  by (simp add: delete_user_def select_by_id split: option.splits)

text \<open>Every reachable table has unique emails and unique ids below the counter.\<close>

lemma reachable_unique_email:
  assumes "reachable E db"
  shows "unique_email (users db)"
  using assms
proof (induction rule: reachable.induct)
  case start
  show ?case by (simp add: empty_db_def unique_email_def)
next
  case (by_signup db e user)
  then show ?case using signup_step[of e user db] by auto
next
  case (by_get_all_users db e)
  then show ?case by (simp add: get_all_users_db)
next
  case (by_get_user db e id')
  then show ?case by (simp add: get_user_db)
next
  case (by_update_user db e id' user)
  then show ?case using update_user_step[of e id' user db] by auto
next
  case (by_delete_user db e id')
  then show ?case using delete_user_step[of e id' db]
    by (auto simp: unique_email_def distinct_map_filter)
qed

lemma reachable_ids:
  assumes "reachable E db"
  shows "unique_id (users db) \<and>
    (\<forall>r\<in>set (users db). \<exists>i. r ''id'' = Some (IntV i) \<and> i < auto_increment db)"
  using assms
proof (induction rule: reachable.induct)
  case start
  show ?case by (simp add: empty_db_def unique_id_def)
next
  case (by_signup db e user)
  let ?r = "[''id'' \<mapsto> IntV (auto_increment db),
               ''created_at'' \<mapsto> TimeV (utcnow e),
               ''updated_at'' \<mapsto> TimeV (utcnow e)] ++
               (dict user)(''password'' \<mapsto> BytesV (encrypt e (password user)))"
  have r: "?r ''id'' = Some (IntV (auto_increment db))"
    by (simp add: map_add_def dict_keys)
  have fresh: "Some (IntV (auto_increment db)) \<notin> (\<lambda>r. r ''id'') ` set (users db)"
    using by_signup.IH by force
  from signup_step[of e user db] show ?case
  proof
    assume "snd (signup e user db) = db"
    then show ?thesis using by_signup.IH by simp
  next
    assume "unique_email (users db @ [?r]) \<and> snd (signup e user db) =
      db\<lparr>users := users db @ [?r], auto_increment := auto_increment db + 1\<rparr>"
    then have eq: "snd (signup e user db) =
      db\<lparr>users := users db @ [?r], auto_increment := auto_increment db + 1\<rparr>" by simp
    show ?thesis
      unfolding eq using by_signup.IH fresh
      by (simp add: unique_id_def r del: map_add_upd) force
  qed
next
  case (by_get_all_users db e)
  then show ?case by (simp add: get_all_users_db)
next
  case (by_get_user db e id')
  then show ?case by (simp add: get_user_db)
next
  case (by_update_user db e id' user)
  from update_user_step[of e id' user db] show ?case
  proof
    assume "snd (update_user e id' user db) = db"
    then show ?thesis using by_update_user.IH by simp
  next
    assume "\<exists>res. stored db id' = Some res \<and>
      unique_email (map (\<lambda>r. if r ''id'' = Some (IntV id')
          then r ++ (res ++ dict user)(''password'' \<mapsto> BytesV (encrypt e (password user))) else r) (users db)) \<and>
      snd (update_user e id' user db) =
        db\<lparr>users := map (\<lambda>r. if r ''id'' = Some (IntV id')
          then r ++ (res ++ dict user)(''password'' \<mapsto> BytesV (encrypt e (password user))) else r) (users db)\<rparr>"
    then obtain res where res: "stored db id' = Some res" and step:
      "snd (update_user e id' user db) =
        db\<lparr>users := map (\<lambda>r. if r ''id'' = Some (IntV id')
          then r ++ (res ++ dict user)(''password'' \<mapsto> BytesV (encrypt e (password user))) else r) (users db)\<rparr>"
      by blast
    let ?u = "(res ++ dict user)(''password'' \<mapsto> BytesV (encrypt e (password user)))"
    let ?g = "\<lambda>r. if r ''id'' = Some (IntV id') then r ++ ?u else r"
    have "?u ''id'' = Some (IntV id')"
      using stored_SomeD[OF res] by (simp add: map_add_def dict_keys)
    then have same: "?g r ''id'' = r ''id''" for r
      by (simp add: map_add_def)
    then have eq: "map (\<lambda>r. r ''id'') (map ?g (users db)) = map (\<lambda>r. r ''id'') (users db)"
      by (simp add: comp_def)
    have "unique_id (map ?g (users db))"
      unfolding unique_id_def eq using by_update_user.IH unfolding unique_id_def by simp
    moreover have "\<exists>i. ?g r ''id'' = Some (IntV i) \<and> i < auto_increment db"
      if "r \<in> set (users db)" for r
      unfolding same using by_update_user.IH that by blast
    then have "\<forall>r\<in>set (map ?g (users db)).
        \<exists>i. r ''id'' = Some (IntV i) \<and> i < auto_increment db"
      unfolding set_map by blast
    ultimately show ?thesis unfolding step by simp
  qed
next
  case (by_delete_user db e id')
  from delete_user_step[of e id' db] show ?case
  proof
    assume "snd (delete_user e id' db) = db"
    then show ?thesis using by_delete_user.IH by simp
  next
    assume "snd (delete_user e id' db) =
      db\<lparr>users := filter (\<lambda>r. r ''id'' \<noteq> Some (IntV id')) (users db)\<rparr>"
    then show ?thesis using by_delete_user.IH
      by (simp add: unique_id_def distinct_map_filter)
  qed
qed

lemma delete_user_absent:
  assumes "0 < id'" and "stored db id' = None"
  shows "delete_user e id' db = (Inl (HTTPException 404 ''User not found''), db)"
  using assms by (simp add: delete_user_def select_by_id fetch_by_id)

lemma delete_user_found:
  assumes "0 < id'" and "stored db id' = Some res"
  shows "delete_user e id' db =
    (Inr (Response 204), db\<lparr>users := filter (\<lambda>r. r ''id'' \<noteq> Some (IntV id')) (users db)\<rparr>)"
  using assms by (simp add: delete_user_def select_by_id fetch_by_id)

lemma stored_after_delete:
  "stored (db\<lparr>users := filter (\<lambda>r. r ''id'' \<noteq> Some (IntV i)) (users db)\<rparr>) j =
     (if j = i then None else stored db j)"
proof -
  have "find P (filter Q xs) = find (\<lambda>x. Q x \<and> P x) xs" for P Q and xs :: "row list"
    by (induction xs) simp_all
  moreover have "(\<lambda>x. x ''id'' \<noteq> Some (IntV i) \<and> x ''id'' = Some (IntV j)) =
      (\<lambda>r. r ''id'' = Some (IntV j))" if "j \<noteq> i"
    using that by auto
  ultimately show ?thesis
    by (auto simp: stored_def find_None_iff)
qed

section \<open>The claims\<close>

subsection \<open>Reads\<close>

text \<open>
  C10. \<^verbatim>\<open>get_user\<close> and \<^verbatim>\<open>get_all_users\<close> are pure reads: whatever the database and the
  id, the database after the call is the database before it.
\<close>

theorem reads_leave_db:
  "snd (get_user e id' db) = db \<and> snd (get_all_users e db) = db"
  by (simp add: get_user_def get_all_users_def)

text \<open>
  C2. \<^verbatim>\<open>get_user\<close> on a positive id that no row has: the function raises nothing and
  returns \<^verbatim>\<open>None\<close>, since line 128 tests the module \<^verbatim>\<open>response\<close> and not \<^verbatim>\<open>res\<close>.
  Evaluated on the empty table with id 1 and, below, on an id just deleted.
\<close>

theorem get_user_absent_returns_None:
  "get_user (request_at 10) 1 empty_db = (Inr None, empty_db)"
  by (simp add: get_user_def empty_db_def fetchone_def response_def)

subsection \<open>Sign-up\<close>

text \<open>
  C6. When no stored row has the email of the body (and the stored emails are all
  different, as the table's unique index keeps them), \<^verbatim>\<open>signup\<close> returns the row it
  appended; the response shaped by \<^verbatim>\<open>UserOut\<close> carries the body's email, first name and
  last name, and has no password.
\<close>

theorem signup_fresh_email:
  assumes "unique_email (users db)" and "\<not> has_email db (email user)"
  shows "\<exists>r. signup e user db =
            (Inr (Some r), db\<lparr>users := users db @ [r], auto_increment := auto_increment db + 1\<rparr>)
          \<and> UserOut r ''email'' = Some (StrV (email user))
          \<and> UserOut r ''first_name'' = Some (StrV (first_name user))
          \<and> UserOut r ''last_name'' = Some (StrV (last_name user))
          \<and> UserOut r ''password'' = None"
proof -
  let ?new_user = "(dict user)(''password'' \<mapsto> BytesV (encrypt e (password user)))"
  let ?r = "[''id'' \<mapsto> IntV (auto_increment db),
               ''created_at'' \<mapsto> TimeV (utcnow e),
               ''updated_at'' \<mapsto> TimeV (utcnow e)] ++ ?new_user"
  let ?db1 = "db\<lparr>users := users db @ [?r], auto_increment := auto_increment db + 1\<rparr>"
  have key: "?new_user ''email'' = Some (StrV (email user))"
    by (simp add: dict_keys)
  have em: "?r ''email'' = Some (StrV (email user))"
    by (simp add: dict_keys map_add_def)
  have fresh: "\<forall>x\<in>set (users db). x ''email'' \<noteq> Some (StrV (email user))"
    using assms(2) by (simp add: has_email_def)
  have uniq: "unique_email (users db @ [?r])"
    unfolding unique_email_def using assms(1) fresh em
    by (auto simp: unique_email_def)
  have ins: "execute e (Insert ?new_user) db = (Inr [], ?db1)"
    using uniq by (simp only: execute.simps Let_def if_True)
  have flt: "filter (matches (ColEq ''email'' (StrV (email user)))) (users db) = []"
    using fresh by (simp add: filter_empty_conv)
  have sel: "execute e (Select (Some (ColEq ''email'' (the (?new_user ''email''))))) ?db1
      = (Inr [?r], ?db1)"
    using flt by (simp add: dict_keys map_add_def)
  have "signup e user db = (Inr (Some ?r), ?db1)"
    by (simp only: signup_def Let_def ins sel prod.case sum.case fetchone_simps)
  moreover have "UserOut ?r ''first_name'' = Some (StrV (first_name user))"
    "UserOut ?r ''last_name'' = Some (StrV (last_name user))"
    "UserOut ?r ''password'' = None"
    "UserOut ?r ''email'' = Some (StrV (email user))"
    by (simp_all add: UserOut_def dict_keys map_add_def restrict_map_def)
  ultimately show ?thesis by blast
qed

theorem signup_fresh_email_witness:
  "unique_email (users db_a) \<and> \<not> has_email db_a (email bob) \<and>
   (\<exists>r. signup (request_at 11) bob db_a =
           (Inr (Some r), db_a\<lparr>users := users db_a @ [r],
                               auto_increment := auto_increment db_a + 1\<rparr>) \<and>
        UserOut r ''email'' = Some (StrV ''bob@x.org'') \<and>
        UserOut r ''first_name'' = Some (StrV ''Bob'') \<and>
        UserOut r ''last_name'' = Some (StrV ''Ray'') \<and>
        UserOut r ''password'' = None)"
proof -
  have h1: "unique_email (users db_a)"
    by (simp add: db_a_def sample_defs run_defs)
  have h2: "\<not> has_email db_a (email bob)"
    by (simp add: has_email_def db_a_def sample_defs run_defs)
  show ?thesis
    using h1 h2 signup_fresh_email[OF h1 h2, of "request_at 11"] by (simp add: bob_def)
qed

text \<open>
  C1. Signing up twice with the same email: the second insert is refused by the table,
  \<^verbatim>\<open>signup\<close> has no handler for the \<^verbatim>\<open>IntegrityError\<close>, and the caller gets status 500,
  not the 409 that \<^verbatim>\<open>update_user\<close> makes of the same error.
\<close>

theorem signup_twice_unhandled:
  "(\<exists>r. fst (signup (request_at 10) ann empty_db) = Inr (Some r)) \<and>
   fst (signup (request_at 11) ann db_a) =
     Inl (Unhandled (IntegrityError ''Duplicate entry ann@x.org for key users.email'')) \<and>
   http_status (Unhandled (IntegrityError ''Duplicate entry ann@x.org for key users.email'')) = 500"
  by (simp add: db_a_def sample_defs run_defs)

subsection \<open>Update\<close>

text \<open>
  C5. A successful \<^verbatim>\<open>update_user\<close> of an existing row: the dict returned and the row
  stored afterwards have the \<^verbatim>\<open>id\<close> and \<^verbatim>\<open>created_at\<close> of the row as it was; no key
  other than first_name, last_name, email, password and updated_at differs.
\<close>

theorem update_user_keeps_id_created_at:
  assumes "stored db id' = Some res" and "update_user e id' user db = (Inr d, db')"
  shows "d ''id'' = res ''id'' \<and> d ''created_at'' = res ''created_at'' \<and>
     (\<exists>res'. stored db' id' = Some res' \<and>
        res' ''id'' = res ''id'' \<and> res' ''created_at'' = res ''created_at'' \<and>
        (\<forall>k. k \<notin> {''first_name'', ''last_name'', ''email'', ''password'', ''updated_at''}
            \<longrightarrow> res' k = res k \<and> d k = res k))"
proof -
  let ?u = "(res ++ dict user)(''password'' \<mapsto> BytesV (encrypt e (password user)))"
  note run = update_user_success[OF assms]
  have keep: "(res ++ ?u) k = res k \<and> d k = res k"
    if "k \<notin> {''first_name'', ''last_name'', ''email'', ''password'', ''updated_at''}" for k
    using that unfolding run(1) by (auto simp: map_add_def dict_other split: option.splits)
  have "d ''id'' = res ''id''" "d ''created_at'' = res ''created_at''"
    "(res ++ ?u) ''id'' = res ''id''" "(res ++ ?u) ''created_at'' = res ''created_at''"
    using keep[of "''id''"] keep[of "''created_at''"] by simp_all
  with run(2) keep show ?thesis by blast
qed

theorem update_user_keeps_id_created_at_witness:
  "stored db_a 1 = Some (the (stored db_a 1)) \<and>
   projr (fst (update_user (request_at 20) 1 bob db_a)) ''id'' = Some (IntV 1) \<and>
   projr (fst (update_user (request_at 20) 1 bob db_a)) ''created_at'' = Some (TimeV 10) \<and>
   (\<exists>res'. stored (snd (update_user (request_at 20) 1 bob db_a)) 1 = Some res' \<and>
      res' ''id'' = Some (IntV 1) \<and> res' ''created_at'' = Some (TimeV 10))"
proof -
  let ?run = "update_user (request_at 20) 1 bob db_a"
  have h1: "stored db_a 1 = Some (the (stored db_a 1))"
    by (simp add: stored_def db_a_def sample_defs run_defs)
  have h2: "?run = (Inr (projr (fst ?run)), snd ?run)"
    by (simp add: db_a_def sample_defs run_defs)
  have r: "the (stored db_a 1) ''id'' = Some (IntV 1)"
    "the (stored db_a 1) ''created_at'' = Some (TimeV 10)"
    by (simp_all add: stored_def db_a_def sample_defs run_defs)
  show ?thesis
    using h1 update_user_keeps_id_created_at[OF h1 h2] unfolding r by blast
qed

text \<open>
  C4. \<^verbatim>\<open>update_user\<close> on an existing row of a table whose ids and emails are unique: when
  another row holds the new email the call fails with status 409; when the new email is the
  row's own the call succeeds; when the write fails in any other way (any exception that
  is not an \<^verbatim>\<open>IntegrityError\<close> naming a duplicate entry of \<^verbatim>\<open>users.email\<close>) the caller
  gets status 500: from the \<^verbatim>\<open>HTTPException\<close> of line 207 for an \<^verbatim>\<open>IntegrityError\<close>,
  from the exception that nothing catches otherwise.
\<close>

theorem update_user_email_rules:
  assumes "0 < id'" and "stored db id' = Some res"
    and "unique_id (users db)" and "unique_email (users db)"
  shows "(fault e = None \<and>
            (\<exists>r\<in>set (users db). r ''id'' \<noteq> Some (IntV id') \<and> r ''email'' = Some (StrV (email user)))
          \<longrightarrow> (\<exists>detail. fst (update_user e id' user db) = Inl (HTTPException 409 detail))) \<and>
         (fault e = None \<and> res ''email'' = Some (StrV (email user))
          \<longrightarrow> (\<exists>d. fst (update_user e id' user db) = Inr d)) \<and>
         (\<forall>x. fault e = Some x \<and>
               \<not> (\<exists>msg. x = IntegrityError msg \<and>
                      sublist ''Duplicate entry'' msg \<and> sublist ''users.email'' msg)
          \<longrightarrow> (\<exists>f. fst (update_user e id' user db) = Inl f \<and> http_status f = 500 \<and>
                 (\<forall>msg. x = IntegrityError msg \<longrightarrow>
                    f = HTTPException 500 ''Internal server error.'')))"
proof -
  let ?u = "(res ++ dict user)(''password'' \<mapsto> BytesV (encrypt e (password user)))"
  let ?rs = "map (\<lambda>r. if r ''id'' = Some (IntV id') then r ++ ?u else r) (users db)"
  note res = stored_SomeD[OF assms(2)]
  have uid: "?u ''id'' = Some (IntV id')" and uem: "?u ''email'' = Some (StrV (email user))"
    using res by (simp_all add: map_add_def dict_keys)
  have conflict: "\<exists>detail. fst (update_user e id' user db) = Inl (HTTPException 409 detail)"
    if nf: "fault e = None"
      and other: "\<exists>r\<in>set (users db). r ''id'' \<noteq> Some (IntV id') \<and> r ''email'' = Some (StrV (email user))"
  proof -
    from other obtain r where r: "r \<in> set (users db)" "r ''id'' \<noteq> Some (IntV id')"
      "r ''email'' = Some (StrV (email user))" by blast
    have "\<not> unique_email ?rs"
      using res r uid uem
      by (intro update_conflict_rows[where res = res and r = r]) simp_all
    then show ?thesis
      using update_user_found[OF assms(1,2) nf, of user] by (simp add: Let_def)
  qed
  have own: "\<exists>d. fst (update_user e id' user db) = Inr d"
    if nf: "fault e = None" and same: "res ''email'' = Some (StrV (email user))"
  proof -
    have "unique_email ?rs"
      using res assms(3,4) uem same
      by (intro update_same_email_rows[where res = res]) simp_all
    then show ?thesis
      using update_user_found[OF assms(1,2) nf, of user] by (simp add: Let_def)
  qed
  have other: "\<exists>f. fst (update_user e id' user db) = Inl f \<and> http_status f = 500 \<and>
      (\<forall>msg. x = IntegrityError msg \<longrightarrow> f = HTTPException 500 ''Internal server error.'')"
    if "fault e = Some x" and "\<not> (\<exists>msg. x = IntegrityError msg \<and>
                      sublist ''Duplicate entry'' msg \<and> sublist ''users.email'' msg)" for x
    using that update_user_fault[OF assms(1,2) that(1), of user]
    by (cases x) auto
  from conflict own other show ?thesis by blast
qed

theorem update_user_email_rules_witness:
  "(\<exists>detail. fst (update_user (request_at 20) 1 (ann\<lparr>email := ''bob@x.org''\<rparr>) db_ab) =
       Inl (HTTPException 409 detail)) \<and>
   (\<exists>d. fst (update_user (request_at 20) 1 ann db_ab) = Inr d) \<and>
   (\<exists>f. fst (update_user ((request_at 20)\<lparr>fault := Some (OperationalError ''gone away'')\<rparr>)
              1 ann db_ab) = Inl f \<and> http_status f = 500) \<and>
   fst (update_user ((request_at 20)\<lparr>fault := Some (IntegrityError ''foreign key'')\<rparr>)
              1 ann db_ab) = Inl (HTTPException 500 ''Internal server error.'')"
proof -
  have h1: "0 < (1::int)" by simp
  have h2: "stored db_ab 1 = Some (the (stored db_ab 1))"
    by (simp add: stored_def db_ab_def db_a_def sample_defs run_defs)
  have h3: "unique_id (users db_ab)"
    by (simp add: unique_id_def db_ab_def db_a_def sample_defs run_defs)
  have h4: "unique_email (users db_ab)"
    by (simp add: db_ab_def db_a_def sample_defs run_defs)
  have other: "\<exists>r\<in>set (users db_ab). r ''id'' \<noteq> Some (IntV 1) \<and>
      r ''email'' = Some (StrV (email (ann\<lparr>email := ''bob@x.org''\<rparr>)))"
    by (simp add: db_ab_def db_a_def sample_defs run_defs)
  have own: "the (stored db_ab 1) ''email'' = Some (StrV (email ann))"
    by (simp add: stored_def db_ab_def db_a_def sample_defs run_defs)
  have nf: "fault (request_at 20) = None"
    by (simp add: request_at_def)
  have ft: "fault ((request_at 20)\<lparr>fault := Some x\<rparr>) = Some x" for x
    by simp
  have no_dup: "\<not> sublist ''Duplicate entry'' ''foreign key''"
    by code_simp
  have a: "\<exists>detail. fst (update_user (request_at 20) 1 (ann\<lparr>email := ''bob@x.org''\<rparr>) db_ab) =
       Inl (HTTPException 409 detail)"
    using update_user_email_rules[OF h1 h2 h3 h4, of "request_at 20" "ann\<lparr>email := ''bob@x.org''\<rparr>"]
      other nf by blast
  have b: "\<exists>d. fst (update_user (request_at 20) 1 ann db_ab) = Inr d"
    using update_user_email_rules[OF h1 h2 h3 h4, of "request_at 20" ann] own nf by blast
  have c: "\<exists>f. fst (update_user ((request_at 20)\<lparr>fault := Some (OperationalError ''gone away'')\<rparr>)
              1 ann db_ab) = Inl f \<and> http_status f = 500"
    using update_user_email_rules[OF h1 h2 h3 h4,
        of "(request_at 20)\<lparr>fault := Some (OperationalError ''gone away'')\<rparr>" ann]
      ft[of "OperationalError ''gone away''"] by simp
  have d: "fst (update_user ((request_at 20)\<lparr>fault := Some (IntegrityError ''foreign key'')\<rparr>)
              1 ann db_ab) = Inl (HTTPException 500 ''Internal server error.'')"
    using update_user_email_rules[OF h1 h2 h3 h4,
        of "(request_at 20)\<lparr>fault := Some (IntegrityError ''foreign key'')\<rparr>" ann]
      ft[of "IntegrityError ''foreign key''"] no_dup by auto
  from a b c d show ?thesis by blast
qed

text \<open>
  C3. Updating at instant 20 the row created at instant 10: the dict returned carries
  \<^verbatim>\<open>updated_at\<close> 20, but line 211 sets it after the write of line 198, and the row stored
  keeps \<^verbatim>\<open>updated_at\<close> 10 beside its new email.
\<close>

theorem update_user_stores_old_updated_at:
  "(\<exists>d. fst (update_user (request_at 20) 1 bob db_a) = Inr d \<and>
        d ''updated_at'' = Some (TimeV 20)) \<and>
   (\<exists>r. stored (snd (update_user (request_at 20) 1 bob db_a)) 1 = Some r \<and>
        r ''email'' = Some (StrV ''bob@x.org'') \<and>
        r ''updated_at'' = Some (TimeV 10))"
  by (simp add: stored_def db_a_def sample_defs run_defs)

subsection \<open>Delete\<close>

text \<open>
  C7. After signing up A, B and C and deleting B (id 2): the delete answers 204 and the
  table holds exactly the rows of ids 1 and 3; but \<^verbatim>\<open>get_user\<close> on id 2 then returns
  \<^verbatim>\<open>None\<close> and raises no 404 (the defect of C2).
\<close>

theorem get_user_after_delete_returns_None:
  "fst (delete_user (request_at 13) 2 db_abc) = Inr (Response 204) \<and>
   map (\<lambda>r. r ''id'') (users (snd (delete_user (request_at 13) 2 db_abc))) =
     [Some (IntV 1), Some (IntV 3)] \<and>
   fst (get_user (request_at 14) 2 (snd (delete_user (request_at 13) 2 db_abc))) = Inr None"
  by (simp add: db_abc_def db_ab_def db_a_def sample_defs run_defs)

subsection \<open>The stored rows\<close>

text \<open>
  C8. In every state the service reaches, run in environments whose cipher never returns
  an empty token: the stored emails are all different, every row has an email, and every
  row's password is a non-empty output of the cipher of some request.
\<close>

theorem reachable_unique_email_encrypted_password:
  assumes cipher: "\<forall>e p. E e \<longrightarrow> encrypt e p \<noteq> []" and "reachable E db"
  shows "unique_email (users db) \<and>
    (\<forall>r\<in>set (users db).
       (\<exists>a. r ''email'' = Some (StrV a)) \<and>
       (\<exists>e p. E e \<and> r ''password'' = Some (BytesV (encrypt e p)) \<and> encrypt e p \<noteq> []))"
  using assms(2)
proof (induction rule: reachable.induct)
  case start
  show ?case by (simp add: empty_db_def unique_email_def)
next
  case (by_signup db e user)
  let ?r = "[''id'' \<mapsto> IntV (auto_increment db),
               ''created_at'' \<mapsto> TimeV (utcnow e),
               ''updated_at'' \<mapsto> TimeV (utcnow e)] ++
               (dict user)(''password'' \<mapsto> BytesV (encrypt e (password user)))"
  have r: "?r ''email'' = Some (StrV (email user))"
    "?r ''password'' = Some (BytesV (encrypt e (password user)))"
    by (simp_all add: map_add_def dict_keys)
  have ok: "(\<exists>a. ?r ''email'' = Some (StrV a)) \<and>
       (\<exists>e p. E e \<and> ?r ''password'' = Some (BytesV (encrypt e p)) \<and> encrypt e p \<noteq> [])"
    unfolding r using by_signup.hyps(2) cipher by blast
  from signup_step[of e user db] show ?case
  proof
    assume "snd (signup e user db) = db"
    then show ?thesis using by_signup.IH by simp
  next
    assume "unique_email (users db @ [?r]) \<and> snd (signup e user db) =
      db\<lparr>users := users db @ [?r], auto_increment := auto_increment db + 1\<rparr>"
    then show ?thesis using by_signup.IH ok by simp
  qed
next
  case (by_get_all_users db e)
  then show ?case by (simp add: get_all_users_db)
next
  case (by_get_user db e id')
  then show ?case by (simp add: get_user_db)
next
  case (by_update_user db e id' user)
  from update_user_step[of e id' user db] show ?case
  proof
    assume "snd (update_user e id' user db) = db"
    then show ?thesis using by_update_user.IH by simp
  next
    assume "\<exists>res. stored db id' = Some res \<and>
      unique_email (map (\<lambda>r. if r ''id'' = Some (IntV id')
          then r ++ (res ++ dict user)(''password'' \<mapsto> BytesV (encrypt e (password user))) else r) (users db)) \<and>
      snd (update_user e id' user db) =
        db\<lparr>users := map (\<lambda>r. if r ''id'' = Some (IntV id')
          then r ++ (res ++ dict user)(''password'' \<mapsto> BytesV (encrypt e (password user))) else r) (users db)\<rparr>"
    then obtain res where step:
      "unique_email (map (\<lambda>r. if r ''id'' = Some (IntV id')
          then r ++ (res ++ dict user)(''password'' \<mapsto> BytesV (encrypt e (password user))) else r) (users db))"
      "snd (update_user e id' user db) =
        db\<lparr>users := map (\<lambda>r. if r ''id'' = Some (IntV id')
          then r ++ (res ++ dict user)(''password'' \<mapsto> BytesV (encrypt e (password user))) else r) (users db)\<rparr>"
      by blast
    let ?u = "(res ++ dict user)(''password'' \<mapsto> BytesV (encrypt e (password user)))"
    have u: "(r ++ ?u) ''email'' = Some (StrV (email user))"
      "(r ++ ?u) ''password'' = Some (BytesV (encrypt e (password user)))" for r :: row
      by (simp_all add: map_add_def dict_keys)
    have ok: "(\<exists>a. (r ++ ?u) ''email'' = Some (StrV a)) \<and>
       (\<exists>e' p. E e' \<and> (r ++ ?u) ''password'' = Some (BytesV (encrypt e' p)) \<and> encrypt e' p \<noteq> [])"
      for r :: row
      unfolding u using by_update_user.hyps(2) cipher by blast
    show ?thesis
      unfolding step(2) using step(1) by_update_user.IH ok by auto
  qed
next
  case (by_delete_user db e id')
  from delete_user_step[of e id' db] show ?case
  proof
    assume "snd (delete_user e id' db) = db"
    then show ?thesis using by_delete_user.IH by simp
  next
    assume "snd (delete_user e id' db) =
      db\<lparr>users := filter (\<lambda>r. r ''id'' \<noteq> Some (IntV id')) (users db)\<rparr>"
    then show ?thesis using by_delete_user.IH
      by (simp add: unique_email_def distinct_map_filter)
  qed
qed

theorem reachable_unique_email_encrypted_password_witness:
  "reachable sample_cipher db_ab \<and> unique_email (users db_ab) \<and>
   list_all (\<lambda>r. (\<exists>a. r ''email'' = Some (StrV a)) \<and>
       (\<exists>e p. sample_cipher e \<and> r ''password'' = Some (BytesV (encrypt e p)) \<and>
              encrypt e p \<noteq> [])) (users db_ab)"
proof -
  have c: "\<forall>e p. sample_cipher e \<longrightarrow> encrypt e p \<noteq> []"
    by (simp add: sample_cipher_def)
  have e: "sample_cipher (request_at t)" for t
    by (simp add: sample_cipher_def request_at_def)
  have r: "reachable sample_cipher db_ab"
    unfolding db_ab_def db_a_def by (intro reachable.by_signup reachable.start e)
  show ?thesis
    using r reachable_unique_email_encrypted_password[OF c r]
    by (simp add: list_all_iff)
qed

end
